theory Spec2Isabelle
  imports Complex_Main
begin

section \<open>Data model\<close>

text \<open>
  The transformation script \<^verbatim>\<open>scripts/transform_data.py\<close> works on a pandas DataFrame
  read from the table \<^verbatim>\<open>raw_demand (timestamp TIMESTAMPTZ PRIMARY KEY, demand_mwh INT)\<close>.
  A DataFrame is modelled as the list of its rows, in frame order. The index value of a
  row is its timestamp, taken in UTC and counted in whole hours since 1970-01-01T00:00Z; a
  SQL NULL / pandas NaN is \<open>None\<close>. Demand values are integers (the column is INT); the
  rolling mean is kept as an exact rational, so the one rounding of the final float64
  division is not modelled.
\<close>

record raw_row =
  timestamp :: int
  demand_mwh :: "int option"

record feature_row = raw_row +
  hour :: int
  day_of_week :: int
  day_of_year :: int
  month :: int
  year :: int
  lag_demand_24h :: "int option"
  lag_demand_1_week :: "int option"
  rolling_mean_24h :: "rat option"

section \<open>Calendar accessors of the index\<close>

text \<open>
  \<^verbatim>\<open>df.index.hour\<close>, \<^verbatim>\<open>.dayofweek\<close> (Monday = 0), \<^verbatim>\<open>.dayofyear\<close>, \<^verbatim>\<open>.month\<close> and
  \<^verbatim>\<open>.year\<close> of a timestamp in the proleptic Gregorian calendar. 1970-01-01 was a
  Thursday.
\<close>

definition index_hour :: "int \<Rightarrow> int" where
  "index_hour t = t mod 24"

definition index_dayofweek :: "int \<Rightarrow> int" where
  "index_dayofweek t = (t div 24 + 3) mod 7"

definition is_leap_year :: "int \<Rightarrow> bool" where
  "is_leap_year y \<longleftrightarrow> (y mod 4 = 0 \<and> y mod 100 \<noteq> 0) \<or> y mod 400 = 0"

text \<open>
  The civil date of day number \<open>d\<close> (days since 1970-01-01): the 400-year era and the day
  within it, counted from 0000-03-01; the year within the era; the day within the year
  that starts on 1 March; the month of that year (0 = March); the calendar month.
\<close>

definition era :: "int \<Rightarrow> int" where
  "era d = (d + 719468) div 146097"

definition day_of_era :: "int \<Rightarrow> int" where
  "day_of_era d = (d + 719468) mod 146097"

definition year_of_era :: "int \<Rightarrow> int" where
  "year_of_era doe = (doe - doe div 1460 + doe div 36524 - doe div 146096) div 365"

definition day_of_march_year :: "int \<Rightarrow> int" where
  "day_of_march_year doe =
     doe - (365 * year_of_era doe + year_of_era doe div 4 - year_of_era doe div 100)"

definition march_month :: "int \<Rightarrow> int" where
  "march_month doy = (5 * doy + 2) div 153"

definition calendar_month :: "int \<Rightarrow> int" where
  "calendar_month mp = (if mp < 10 then mp + 3 else mp - 9)"

definition index_month :: "int \<Rightarrow> int" where
  "index_month t = calendar_month (march_month (day_of_march_year (day_of_era (t div 24))))"

definition index_year :: "int \<Rightarrow> int" where
  "index_year t =
     year_of_era (day_of_era (t div 24)) + era (t div 24) * 400 +
       (if index_month t \<le> 2 then 1 else 0)"

definition index_dayofyear :: "int \<Rightarrow> int" where
  "index_dayofyear t =
     (if index_month t \<le> 2 then day_of_march_year (day_of_era (t div 24)) - 305
      else day_of_march_year (day_of_era (t div 24)) + 60 +
             (if is_leap_year (index_year t) then 1 else 0))"

section \<open>Column operations\<close>

text \<open>
  \<^verbatim>\<open>Index.duplicated(keep="first")\<close>: one flag per position, true where the value has
  already occurred at an earlier position. The first argument holds the values seen so far.
\<close>

fun duplicated :: "'k list \<Rightarrow> 'k list \<Rightarrow> bool list" where
  "duplicated seen [] = []"
| "duplicated seen (k # ks) = (k \<in> set seen) # duplicated (k # seen) ks"

text \<open>Boolean-mask selection \<^verbatim>\<open>df[mask]\<close>: the rows whose flag is true, in frame order.\<close>

definition select_mask :: "'a list \<Rightarrow> bool list \<Rightarrow> 'a list" where
  "select_mask df flags = map fst (filter snd (zip df flags))"

text \<open>\<^verbatim>\<open>Series.isnull().sum()\<close>: the number of missing entries.\<close>

definition isnull_sum :: "'a option list \<Rightarrow> nat" where
  "isnull_sum col = length (filter (\<lambda>v. v = None) col)"

text \<open>
  \<^verbatim>\<open>Series.ffill()\<close>: one pass from the top that carries the last valid value and writes
  it over each missing entry; before the first valid value there is nothing to carry.
\<close>

fun ffill_from :: "'a option \<Rightarrow> 'a option list \<Rightarrow> 'a option list" where
  "ffill_from prev [] = []"
| "ffill_from prev (None # col) = prev # ffill_from prev col"
| "ffill_from prev (Some v # col) = Some v # ffill_from (Some v) col"

definition ffill :: "'a option list \<Rightarrow> 'a option list" where
  "ffill col = ffill_from None col"

text \<open>
  \<^verbatim>\<open>Series.shift(n)\<close> for \<open>n \<ge> 0\<close>: every value moves down \<open>n\<close> positions, the first
  \<open>n\<close> positions become missing, the length is unchanged.
\<close>

definition shift :: "nat \<Rightarrow> 'a option list \<Rightarrow> 'a option list" where
  "shift n col = replicate (min n (length col)) None @ take (length col - n) col"

text \<open>
  \<^verbatim>\<open>Series.rolling(window=w).mean()\<close> with the default \<^verbatim>\<open>min_periods = w\<close>: position \<open>i\<close>
  looks at the \<open>w\<close> entries ending at \<open>i\<close>; the result is missing unless the window is
  complete and free of missing entries.
\<close>

definition window_mean :: "nat \<Rightarrow> int option list \<Rightarrow> rat option" where
  "window_mean w win =
     (if length win = w \<and> list_all (\<lambda>v. v \<noteq> None) win
      then Some (rat_of_int (sum_list (map the win)) / rat_of_nat w)
      else None)"

definition rolling_mean :: "nat \<Rightarrow> int option list \<Rightarrow> rat option list" where
  "rolling_mean w col =
     map (\<lambda>i. if Suc i < w then None else window_mean w (take w (drop (Suc i - w) col)))
       [0..<length col]"

section \<open>\<^verbatim>\<open>transform_data\<close>\<close>

text \<open>
  Step 1 of \<^verbatim>\<open>transform_data\<close>, data cleaning: drop every row whose index value was seen
  before, then forward-fill \<^verbatim>\<open>demand_mwh\<close> if it has at least one missing entry.
\<close>

definition drop_duplicated :: "raw_row list \<Rightarrow> raw_row list" where
  "drop_duplicated df = select_mask df (map Not (duplicated [] (map timestamp df)))"

definition set_demand :: "raw_row list \<Rightarrow> int option list \<Rightarrow> raw_row list" where
  "set_demand df col = map2 (\<lambda>r v. r\<lparr>demand_mwh := v\<rparr>) df col"

definition clean :: "raw_row list \<Rightarrow> raw_row list" where
  "clean df0 =
     (let df = drop_duplicated df0
      in if isnull_sum (map demand_mwh df) > 0
         then set_demand df (ffill (map demand_mwh df))
         else df)"

text \<open>
  Step 2, feature engineering: the calendar columns from the index, the two lag columns
  \<^verbatim>\<open>shift(24)\<close> and \<^verbatim>\<open>shift(24 * 7)\<close>, and \<^verbatim>\<open>shift(1).rolling(window=24).mean()\<close>.
\<close>

definition add_features :: "raw_row list \<Rightarrow> feature_row list" where
  "add_features df =
     (let col = map demand_mwh df;
          lag24 = shift 24 col;
          lag168 = shift (24 * 7) col;
          roll = rolling_mean 24 (shift 1 col)
      in map (\<lambda>i.
            \<lparr> timestamp = timestamp (df ! i),
              demand_mwh = col ! i,
              hour = index_hour (timestamp (df ! i)),
              day_of_week = index_dayofweek (timestamp (df ! i)),
              day_of_year = index_dayofyear (timestamp (df ! i)),
              month = index_month (timestamp (df ! i)),
              year = index_year (timestamp (df ! i)),
              lag_demand_24h = lag24 ! i,
              lag_demand_1_week = lag168 ! i,
              rolling_mean_24h = roll ! i \<rparr>)
          [0..<length df])"

text \<open>
  \<^verbatim>\<open>df.dropna()\<close>: keep the rows with no missing value in any column. The index and the
  calendar columns are never missing, so four columns decide.
\<close>

definition notna_row :: "feature_row \<Rightarrow> bool" where
  "notna_row r \<longleftrightarrow>
     demand_mwh r \<noteq> None \<and> lag_demand_24h r \<noteq> None \<and>
     lag_demand_1_week r \<noteq> None \<and> rolling_mean_24h r \<noteq> None"

definition dropna :: "feature_row list \<Rightarrow> feature_row list" where
  "dropna df = filter notna_row df"

definition transform_data :: "raw_row list \<Rightarrow> feature_row list" where
  "transform_data df = dropna (add_features (clean df))"

section \<open>The database and the script's main block\<close>

text \<open>
  What the script sees of its environment: the \<^verbatim>\<open>DB_PASSWORD\<close> variable, whether the
  PostgreSQL server answers, and the two tables (\<open>None\<close>: the table does not exist).
\<close>

record world =
  db_password :: "string option"
  db_up :: bool
  raw_demand :: "raw_row list option"
  features_demand :: "feature_row list option"

text \<open>
  The engine handle. \<^verbatim>\<open>create_engine\<close> does not connect, so \<^verbatim>\<open>get_sql_engine\<close> fails only
  when the password is unset or empty; it then returns \<^verbatim>\<open>None\<close>.
\<close>

datatype engine = Engine

definition get_sql_engine :: "world \<Rightarrow> engine option" where
  "get_sql_engine w =
     (case db_password w of
        None \<Rightarrow> None
      | Some p \<Rightarrow> if p = [] then None else Some Engine)"

text \<open>
  \<^verbatim>\<open>df.sort_index()\<close>: the rows in ascending order of the index. Rows with equal index
  values are kept here in their stored order; the primary key of \<^verbatim>\<open>raw_demand\<close> excludes
  them in the table.
\<close>

definition sort_index :: "raw_row list \<Rightarrow> raw_row list" where
  "sort_index df = sort_key timestamp df"

text \<open>
  \<^verbatim>\<open>load_raw_data\<close>: any exception of the query (server down, table missing) is caught and
  \<^verbatim>\<open>None\<close> is returned; otherwise the sorted frame, which may have no rows.
\<close>

definition load_raw_data :: "engine \<Rightarrow> world \<Rightarrow> raw_row list option" where
  "load_raw_data e w =
     (if \<not> db_up w then None
      else case raw_demand w of
             None \<Rightarrow> None
           | Some rows \<Rightarrow> Some (sort_index rows))"

text \<open>
  \<^verbatim>\<open>save_features_data\<close>: \<^verbatim>\<open>to_sql(..., if_exists="replace")\<close> drops the table if it
  exists and creates it anew from the frame. An exception is caught and reported; the one
  failure modelled is a server that does not answer, which leaves the table as it was.
\<close>

definition save_features_data :: "feature_row list \<Rightarrow> engine \<Rightarrow> world \<Rightarrow> bool \<times> world" where
  "save_features_data df e w =
     (if db_up w then (True, w\<lparr>features_demand := Some df\<rparr>) else (False, w))"

text \<open>The branch in which the main block ends, named by what it reports.\<close>

datatype outcome =
    No_Engine
  | Data_Loading_Failed
  | Transformation_Failed_Or_Empty
  | Saved
  | Error_Saving

definition main :: "world \<Rightarrow> outcome \<times> world" where
  "main w =
     (case get_sql_engine w of
        None \<Rightarrow> (No_Engine, w)
      | Some e \<Rightarrow>
          (case load_raw_data e w of
             None \<Rightarrow> (Data_Loading_Failed, w)
           | Some raw_df \<Rightarrow>
               (let transformed_df = transform_data raw_df
                in if transformed_df \<noteq> []
                   then (case save_features_data transformed_df e w of
                           (True, w') \<Rightarrow> (Saved, w')
                         | (False, w') \<Rightarrow> (Error_Saving, w'))
                   else (Transformation_Failed_Or_Empty, w))))"

text \<open>
  How control leaves the main block: it runs to its end, or an exception of the named class
  propagates to whoever started the script. The main block has no \<^verbatim>\<open>raise\<close> and no
  \<^verbatim>\<open>sys.exit\<close>; \<^verbatim>\<open>get_sql_engine\<close>, \<^verbatim>\<open>load_raw_data\<close> and \<^verbatim>\<open>save_features_data\<close> catch every
  exception of their bodies and print it; an empty or failed transformation takes the
  \<^verbatim>\<open>else\<close> branch, which prints one line.
\<close>

datatype ending = Ends_Normally | Raises string

definition script_ending :: "world \<Rightarrow> ending" where
  "script_ending w =
     (case get_sql_engine w of
        None \<Rightarrow> Ends_Normally
      | Some e \<Rightarrow>
          (case load_raw_data e w of
             None \<Rightarrow> Ends_Normally
           | Some raw_df \<Rightarrow>
               (let transformed_df = transform_data raw_df
                in if transformed_df \<noteq> []
                   then (case save_features_data transformed_df e w of
                           (True, w') \<Rightarrow> Ends_Normally
                         | (False, w') \<Rightarrow> Ends_Normally)
                   else Ends_Normally)))"

section \<open>Auxiliary notions and example inputs\<close>

text \<open>
  The rows kept by \<^verbatim>\<open>df[~df.index.duplicated(keep="first")]\<close> when the scan starts with
  a given list of index values already seen; \<open>drop_duplicated\<close> starts with none.
\<close>

abbreviation keep_unseen :: "int list \<Rightarrow> raw_row list \<Rightarrow> raw_row list" where
  "keep_unseen seen df \<equiv> select_mask df (map Not (duplicated seen (map timestamp df)))"

text \<open>Six hourly rows, the first five without a demand value, the sixth with 500.\<close>

definition leading_gap :: "raw_row list" where
  "leading_gap =
     [\<lparr>timestamp = 0, demand_mwh = None\<rparr>, \<lparr>timestamp = 1, demand_mwh = None\<rparr>,
      \<lparr>timestamp = 2, demand_mwh = None\<rparr>, \<lparr>timestamp = 3, demand_mwh = None\<rparr>,
      \<lparr>timestamp = 4, demand_mwh = None\<rparr>, \<lparr>timestamp = 5, demand_mwh = Some 500\<rparr>]"

text \<open>Five hourly rows with a leading gap and a gap of two rows after the value 7.\<close>

definition filled_example :: "raw_row list" where
  "filled_example =
     [\<lparr>timestamp = 0, demand_mwh = None\<rparr>, \<lparr>timestamp = 1, demand_mwh = Some 7\<rparr>,
      \<lparr>timestamp = 2, demand_mwh = None\<rparr>, \<lparr>timestamp = 3, demand_mwh = None\<rparr>,
      \<lparr>timestamp = 4, demand_mwh = Some 9\<rparr>]"

text \<open>
  The scenario of 200 consecutive hourly rows starting 2024-01-01T00:00Z (hour 473352 since
  the epoch), demand \<open>1000 + i\<close> at row \<open>i\<close>; the demands of rows \<open>lo\<close> to \<open>hi - 1\<close> and
  the mean of a list of values, for stating what is expected of it.
\<close>

definition scenario :: "raw_row list" where
  "scenario =
     map (\<lambda>i. \<lparr>timestamp = 473352 + int i, demand_mwh = Some (1000 + int i)\<rparr>) [0..<200]"

definition demands :: "nat \<Rightarrow> nat \<Rightarrow> int list" where
  "demands lo hi = map (\<lambda>i. 1000 + int i) [lo..<hi]"

definition mean_of :: "int list \<Rightarrow> rat" where
  "mean_of vs = rat_of_int (sum_list vs) / rat_of_nat (length vs)"

text \<open>The scenario followed by a second observation for its first hour.\<close>

definition dup_scenario :: "raw_row list" where
  "dup_scenario = scenario @ [\<lparr>timestamp = 473352, demand_mwh = Some 7\<rparr>]"

text \<open>The scenario preceded by one hour without a demand value.\<close>

definition gap_scenario :: "raw_row list" where
  "gap_scenario = \<lparr>timestamp = 473351, demand_mwh = None\<rparr> # scenario"

text \<open>The first 168 rows of the scenario followed by a different row.\<close>

definition other_future :: "raw_row list" where
  "other_future = take 168 scenario @ [\<lparr>timestamp = 500000, demand_mwh = None\<rparr>]"

text \<open>
  Example environments. Each holds a feature table from an earlier run, except the last:
  a reachable database whose raw table has no rows; a server that does not answer; a raw
  table of six rows, too short for any feature row; and the scenario stored newest first.
\<close>

definition empty_store_world :: world where
  "empty_store_world =
     \<lparr>db_password = Some ''secret'', db_up = True, raw_demand = Some [],
      features_demand = Some (transform_data scenario)\<rparr>"

definition server_down_world :: world where
  "server_down_world =
     \<lparr>db_password = Some ''secret'', db_up = False, raw_demand = Some scenario,
      features_demand = Some (transform_data scenario)\<rparr>"

definition short_series_world :: world where
  "short_series_world =
     \<lparr>db_password = Some ''secret'', db_up = True, raw_demand = Some leading_gap,
      features_demand = Some (transform_data scenario)\<rparr>"

definition unsorted_world :: world where
  "unsorted_world =
     \<lparr>db_password = Some ''secret'', db_up = True, raw_demand = Some (rev scenario),
      features_demand = None\<rparr>"

section \<open>Properties of the cleaning step\<close>

subsection \<open>Selection by flags and duplicate flags\<close>

lemma select_mask_Nil [simp]: "select_mask [] flags = []"
  by (simp add: select_mask_def)

lemma select_mask_Cons [simp]:
  "select_mask (r # df) (b # flags) = (if b then r # select_mask df flags else select_mask df flags)"
  by (simp add: select_mask_def)

lemma length_duplicated [simp]: "length (duplicated seen ks) = length ks"
  by (induction ks arbitrary: seen) auto

lemma keep_unseen_mono_seen:
  "set seen \<subseteq> set seen' \<Longrightarrow> set (keep_unseen seen' df) \<subseteq> set (keep_unseen seen df)"
proof (induction df arbitrary: seen seen')
  case Nil
  then show ?case by simp
next
  case (Cons r df)
  have "set (timestamp r # seen) \<subseteq> set (timestamp r # seen')"
    using Cons.prems by auto
  from Cons.IH [OF this] Cons.prems show ?case by auto
qed

lemma timestamps_keep_unseen:
  "set (map timestamp (keep_unseen seen df)) = set (map timestamp df) - set seen"
  by (induction df arbitrary: seen) auto

lemma distinct_keep_unseen: "distinct (map timestamp (keep_unseen seen df))"
proof (induction df arbitrary: seen)
  case Nil
  then show ?case by simp
next
  case (Cons r df)
  have "timestamp r \<notin> set (map timestamp (keep_unseen (timestamp r # seen) df))"
    unfolding timestamps_keep_unseen by simp
  with Cons.IH show ?case by simp
qed

lemma keep_unseen_seen_filter:
  "t \<in> set seen \<Longrightarrow> filter (\<lambda>x. timestamp x = t) (keep_unseen seen df) = []"
proof -
  assume "t \<in> set seen"
  then have "t \<notin> set (map timestamp (keep_unseen seen df))"
    unfolding timestamps_keep_unseen by simp
  then show ?thesis by (auto simp: filter_empty_conv)
qed

lemma keep_unseen_first:
  "t \<notin> set seen \<Longrightarrow>
   filter (\<lambda>x. timestamp x = t) (keep_unseen seen df) =
     (case find (\<lambda>x. timestamp x = t) df of None \<Rightarrow> [] | Some r \<Rightarrow> [r])"
proof (induction df arbitrary: seen)
  case Nil
  then show ?case by simp
next
  case (Cons r df)
  show ?case
  proof (cases "timestamp r = t")
    case True
    then show ?thesis using Cons.prems by (simp add: keep_unseen_seen_filter)
  next
    case False
    then have "t \<notin> set (timestamp r # seen)" using Cons.prems by simp
    from Cons.IH [OF this] False show ?thesis by simp
  qed
qed

lemma keep_unseen_distinct_id:
  "distinct (map timestamp df) \<Longrightarrow> set (map timestamp df) \<inter> set seen = {} \<Longrightarrow>
   keep_unseen seen df = df"
  by (induction df arbitrary: seen) auto

lemma sorted_keep_unseen:
  "sorted (map timestamp df) \<Longrightarrow> sorted (map timestamp (keep_unseen seen df))"
proof (induction df arbitrary: seen)
  case Nil
  then show ?case by simp
next
  case (Cons r df)
  have "set (map timestamp (keep_unseen (timestamp r # seen) df)) \<subseteq> set (map timestamp df)"
    unfolding timestamps_keep_unseen by auto
  with Cons show ?case by auto
qed

lemma length_keep_unseen:
  "length (keep_unseen seen df) + length (filter id (duplicated seen (map timestamp df))) = length df"
  by (induction df arbitrary: seen) auto

subsection \<open>Forward fill\<close>

lemma length_ffill_from [simp]: "length (ffill_from prev col) = length col"
  by (induction prev col rule: ffill_from.induct) auto

lemma ffill_from_notna: "None \<notin> set col \<Longrightarrow> ffill_from prev col = col"
  by (induction prev col rule: ffill_from.induct) auto

lemma ffill_from_Some_notna: "None \<notin> set (ffill_from (Some v) col)"
  by (induction "Some v" col arbitrary: v rule: ffill_from.induct) auto

lemma ffill_from_idem: "ffill_from None (ffill_from None col) = ffill_from None col"
proof (induction col)
  case Nil
  then show ?case by simp
next
  case (Cons a col)
  then show ?case
    by (cases a) (simp_all add: ffill_from_notna ffill_from_Some_notna)
qed

lemma ffill_from_nth_Some:
  "i < length col \<Longrightarrow> col ! i = Some v \<Longrightarrow> ffill_from prev col ! i = Some v"
proof (induction prev col arbitrary: i rule: ffill_from.induct)
  case (1 prev)
  then show ?case by simp
next
  case (2 prev col)
  then show ?case by (cases i) auto
next
  case (3 prev v col)
  then show ?case by (cases i) auto
qed

lemma ffill_from_nth_leading:
  "i < length col \<Longrightarrow> \<forall>k\<le>i. col ! k = None \<Longrightarrow> ffill_from prev col ! i = prev"
proof (induction prev col arbitrary: i rule: ffill_from.induct)
  case (1 prev)
  then show ?case by simp
next
  case (2 prev col)
  show ?case
  proof (cases i)
    case 0
    then show ?thesis by simp
  next
    case (Suc j)
    have "\<forall>k\<le>j. col ! k = None"
    proof (intro allI impI)
      fix k assume "k \<le> j"
      then have "Suc k \<le> i" using Suc by simp
      with "2.prems"(2) have "(None # col) ! Suc k = None" by blast
      then show "col ! k = None" by simp
    qed
    with "2.IH" [of j] "2.prems"(1) Suc show ?thesis by simp
  qed
next
  case (3 prev v col)
  from "3.prems"(2) have "(Some v # col) ! 0 = None" by blast
  then show ?case by simp
qed

lemma ffill_from_nth_carry:
  "i < length col \<Longrightarrow> j < i \<Longrightarrow> col ! j = Some v \<Longrightarrow> \<forall>k. j < k \<and> k \<le> i \<longrightarrow> col ! k = None \<Longrightarrow>
   ffill_from prev col ! i = Some v"
proof (induction prev col arbitrary: i j rule: ffill_from.induct)
  case (1 prev)
  then show ?case by simp
next
  case (2 prev col)
  from "2.prems" obtain i' where i: "i = Suc i'" by (cases i) auto
  from "2.prems" obtain j' where j: "j = Suc j'" by (cases j) auto
  have "\<forall>k. j' < k \<and> k \<le> i' \<longrightarrow> col ! k = None"
  proof (intro allI impI)
    fix k assume "j' < k \<and> k \<le> i'"
    then have "j < Suc k \<and> Suc k \<le> i" using i j by simp
    with "2.prems"(4) have "(None # col) ! Suc k = None" by blast
    then show "col ! k = None" by simp
  qed
  with "2.IH" [of i' j'] "2.prems" i j show ?case by simp
next
  case (3 prev w col)
  from "3.prems" obtain i' where i: "i = Suc i'" by (cases i) auto
  show ?case
  proof (cases j)
    case 0
    with "3.prems" have w: "w = v" by simp
    have "\<forall>k\<le>i'. col ! k = None"
    proof (intro allI impI)
      fix k assume "k \<le> i'"
      then have "j < Suc k \<and> Suc k \<le> i" using i 0 by simp
      with "3.prems"(4) have "(Some w # col) ! Suc k = None" by blast
      then show "col ! k = None" by simp
    qed
    with ffill_from_nth_leading [of i' col "Some w"] "3.prems"(1) i w show ?thesis by simp
  next
    case (Suc j')
    have "\<forall>k. j' < k \<and> k \<le> i' \<longrightarrow> col ! k = None"
    proof (intro allI impI)
      fix k assume "j' < k \<and> k \<le> i'"
      then have "j < Suc k \<and> Suc k \<le> i" using i Suc by simp
      with "3.prems"(4) have "(Some w # col) ! Suc k = None" by blast
      then show "col ! k = None" by simp
    qed
    with "3.IH" [of i' j'] "3.prems" i Suc show ?thesis by simp
  qed
qed

subsection \<open>The cleaning step\<close>

lemma set_demand_same: "set_demand df (map demand_mwh df) = df"
  unfolding set_demand_def by (induction df) auto

lemma length_set_demand: "length col = length df \<Longrightarrow> length (set_demand df col) = length df"
  by (simp add: set_demand_def)

lemma timestamps_set_demand:
  "length col = length df \<Longrightarrow> map timestamp (set_demand df col) = map timestamp df"
  unfolding set_demand_def by (induction df col rule: list_induct2') auto

lemma demand_set_demand:
  "length col = length df \<Longrightarrow> map demand_mwh (set_demand df col) = col"
  unfolding set_demand_def by (induction df col rule: list_induct2') auto

lemma set_demand_twice:
  "length col = length df \<Longrightarrow> set_demand (set_demand df col) col = set_demand df col"
  unfolding set_demand_def by (induction df col rule: list_induct2') auto

lemma isnull_sum_0: "isnull_sum col = 0 \<longleftrightarrow> None \<notin> set col"
  by (induction col) (auto simp: isnull_sum_def)

lemma length_ffill [simp]: "length (ffill col) = length col"
  by (simp add: ffill_def)

lemma clean_eq:
  "clean df = set_demand (drop_duplicated df) (ffill (map demand_mwh (drop_duplicated df)))"
proof (cases "isnull_sum (map demand_mwh (drop_duplicated df)) > 0")
  case True
  then show ?thesis by (simp add: clean_def Let_def)
next
  case False
  then have "None \<notin> set (map demand_mwh (drop_duplicated df))"
    using isnull_sum_0 [of "map demand_mwh (drop_duplicated df)"] by simp
  then have "ffill (map demand_mwh (drop_duplicated df)) = map demand_mwh (drop_duplicated df)"
    unfolding ffill_def by (rule ffill_from_notna)
  with False show ?thesis by (simp add: clean_def Let_def set_demand_same)
qed

lemma length_clean: "length (clean df) = length (drop_duplicated df)"
  by (simp add: clean_eq length_set_demand)

lemma timestamps_clean: "map timestamp (clean df) = map timestamp (drop_duplicated df)"
  by (simp add: clean_eq timestamps_set_demand)

lemma demand_clean: "map demand_mwh (clean df) = ffill (map demand_mwh (drop_duplicated df))"
  by (simp add: clean_eq demand_set_demand)

lemma clean_notna_distinct:
  assumes "distinct (map timestamp df)" and "None \<notin> set (map demand_mwh df)"
  shows "clean df = df"
proof -
  have d: "drop_duplicated df = df"
    unfolding drop_duplicated_def using assms(1) by (simp add: keep_unseen_distinct_id)
  have "ffill (map demand_mwh df) = map demand_mwh df"
    unfolding ffill_def using assms(2) by (rule ffill_from_notna)
  then show ?thesis by (simp add: clean_eq d set_demand_same)
qed

lemma clean_clean: "clean (clean df) = clean df"
proof -
  let ?d = "drop_duplicated df"
  let ?c = "ffill (map demand_mwh ?d)"
  have "distinct (map timestamp (clean df))"
    unfolding timestamps_clean drop_duplicated_def by (rule distinct_keep_unseen)
  then have d: "drop_duplicated (clean df) = clean df"
    unfolding drop_duplicated_def by (simp add: keep_unseen_distinct_id)
  have "ffill ?c = ?c"
    unfolding ffill_def by (rule ffill_from_idem)
  then have "clean (clean df) = set_demand (clean df) ?c"
    by (simp add: clean_eq [of "clean df"] d demand_clean)
  also have "\<dots> = clean df"
    by (simp add: clean_eq [of df] set_demand_twice)
  finally show ?thesis .
qed

subsection \<open>Claims about the Cleaner\<close>

text \<open>
  C5: deduplication keeps, for each timestamp, exactly the first observation in frame order
  and discards every later observation with that timestamp. For any frame (sorted or not)
  and any timestamp \<open>t\<close>: the kept rows have pairwise different timestamps, and the kept rows
  with timestamp \<open>t\<close> are exactly the first row of the input with timestamp \<open>t\<close> (none if
  the input has no such row). In particular, of two rows with the same timestamp \<open>s\<close> and
  demands \<open>a\<close> and \<open>b\<close>, only the first is kept.
\<close>

theorem drop_duplicated_first_wins:
  "distinct (map timestamp (drop_duplicated df)) \<and>
   filter (\<lambda>x. timestamp x = t) (drop_duplicated df) =
     (case find (\<lambda>x. timestamp x = t) df of None \<Rightarrow> [] | Some r \<Rightarrow> [r]) \<and>
   drop_duplicated [\<lparr>timestamp = s, demand_mwh = a\<rparr>, \<lparr>timestamp = s, demand_mwh = b\<rparr>]
     = [\<lparr>timestamp = s, demand_mwh = a\<rparr>]"
proof (intro conjI)
  show "distinct (map timestamp (drop_duplicated df))"
    unfolding drop_duplicated_def by (rule distinct_keep_unseen)
  show "filter (\<lambda>x. timestamp x = t) (drop_duplicated df) =
     (case find (\<lambda>x. timestamp x = t) df of None \<Rightarrow> [] | Some r \<Rightarrow> [r])"
    unfolding drop_duplicated_def by (rule keep_unseen_first) simp
  show "drop_duplicated [\<lparr>timestamp = s, demand_mwh = a\<rparr>, \<lparr>timestamp = s, demand_mwh = b\<rparr>]
     = [\<lparr>timestamp = s, demand_mwh = a\<rparr>]"
    by (simp add: drop_duplicated_def)
qed

lemma nth_clean_timestamp:
  "i < length (drop_duplicated df) \<Longrightarrow> timestamp (clean df ! i) = timestamp (drop_duplicated df ! i)"
proof -
  assume i: "i < length (drop_duplicated df)"
  then have "timestamp (clean df ! i) = map timestamp (clean df) ! i"
    by (simp add: length_clean)
  also have "\<dots> = timestamp (drop_duplicated df ! i)"
    using i by (simp add: timestamps_clean)
  finally show ?thesis .
qed

lemma nth_clean_demand:
  "i < length (drop_duplicated df) \<Longrightarrow>
   demand_mwh (clean df ! i) = ffill (map demand_mwh (drop_duplicated df)) ! i"
proof -
  assume i: "i < length (drop_duplicated df)"
  then have "demand_mwh (clean df ! i) = map demand_mwh (clean df) ! i"
    by (simp add: length_clean)
  then show ?thesis by (simp add: demand_clean)
qed

text \<open>
  C6: the Cleaner replaces each missing demand value by the nearest preceding non-missing
  value and leaves it missing when there is none. Positions are those of the deduplicated
  frame \<open>drop_duplicated df\<close>: cleaning keeps the length and the timestamps; a present
  value stays; a missing value at \<open>i\<close> becomes \<open>v\<close> when \<open>v\<close> is the value at some
  \<open>j < i\<close> and everything after \<open>j\<close> up to \<open>i\<close> is missing; and a value at \<open>i\<close> stays
  missing when everything up to \<open>i\<close> is missing. In particular the frame \<open>leading_gap\<close>
  (five missing values, then 500) is returned as it is.
\<close>

theorem clean_forward_fill:
  "length (clean df) = length (drop_duplicated df) \<and>
   (\<forall>i < length (drop_duplicated df).
      timestamp (clean df ! i) = timestamp (drop_duplicated df ! i)) \<and>
   (\<forall>i v. i < length (drop_duplicated df) \<longrightarrow> demand_mwh (drop_duplicated df ! i) = Some v \<longrightarrow>
      demand_mwh (clean df ! i) = Some v) \<and>
   (\<forall>i j v. i < length (drop_duplicated df) \<longrightarrow> j < i \<longrightarrow>
      demand_mwh (drop_duplicated df ! j) = Some v \<longrightarrow>
      (\<forall>k. j < k \<and> k \<le> i \<longrightarrow> demand_mwh (drop_duplicated df ! k) = None) \<longrightarrow>
      demand_mwh (clean df ! i) = Some v) \<and>
   (\<forall>i. i < length (drop_duplicated df) \<longrightarrow>
      (\<forall>k \<le> i. demand_mwh (drop_duplicated df ! k) = None) \<longrightarrow>
      demand_mwh (clean df ! i) = None) \<and>
   clean leading_gap = leading_gap"
proof (intro conjI allI impI)
  let ?d = "drop_duplicated df"
  let ?col = "map demand_mwh ?d"
  show "length (clean df) = length ?d" by (rule length_clean)
  show "timestamp (clean df ! i) = timestamp (?d ! i)" if "i < length ?d" for i
    using that by (rule nth_clean_timestamp)
  show "demand_mwh (clean df ! i) = Some v"
    if "i < length ?d" "demand_mwh (?d ! i) = Some v" for i v
  proof -
    have "ffill ?col ! i = Some v"
      unfolding ffill_def using that by (intro ffill_from_nth_Some) simp_all
    with that show ?thesis by (simp add: nth_clean_demand)
  qed
  show "demand_mwh (clean df ! i) = Some v"
    if "i < length ?d" "j < i" "demand_mwh (?d ! j) = Some v"
      "\<forall>k. j < k \<and> k \<le> i \<longrightarrow> demand_mwh (?d ! k) = None" for i j v
  proof -
    have "ffill ?col ! i = Some v"
      unfolding ffill_def
    proof (rule ffill_from_nth_carry [where j = j])
      show "i < length ?col" using that by simp
      show "j < i" by fact
      show "?col ! j = Some v" using that by simp
      show "\<forall>k. j < k \<and> k \<le> i \<longrightarrow> ?col ! k = None" using that by simp
    qed
    with that show ?thesis by (simp add: nth_clean_demand)
  qed
  show "demand_mwh (clean df ! i) = None"
    if "i < length ?d" "\<forall>k\<le>i. demand_mwh (?d ! k) = None" for i
  proof -
    have "ffill ?col ! i = None"
      unfolding ffill_def
    proof (rule ffill_from_nth_leading)
      show "i < length ?col" using that by simp
      show "\<forall>k\<le>i. ?col ! k = None" using that by simp
    qed
    with that show ?thesis by (simp add: nth_clean_demand)
  qed
  show "clean leading_gap = leading_gap"
    by (simp add: leading_gap_def clean_def drop_duplicated_def isnull_sum_def set_demand_def ffill_def)
qed

lemma drop_duplicated_filled_example: "drop_duplicated filled_example = filled_example"
  by (simp add: filled_example_def drop_duplicated_def)

theorem clean_forward_fill_witness:
  "demand_mwh (clean filled_example ! 0) = None \<and>
   demand_mwh (clean filled_example ! 1) = Some 7 \<and>
   demand_mwh (clean filled_example ! 3) = Some 7 \<and>
   timestamp (clean filled_example ! 3) = 3"
proof -
  note T = clean_forward_fill [of filled_example, unfolded drop_duplicated_filled_example]
  have len: "length filled_example = 5" by (simp add: filled_example_def)
  have a: "demand_mwh (clean filled_example ! 0) = None"
  proof -
    have "\<forall>k\<le>0. demand_mwh (filled_example ! k) = None" by (simp add: filled_example_def)
    with T len show ?thesis by simp
  qed
  have b: "demand_mwh (clean filled_example ! 1) = Some 7"
  proof -
    have "demand_mwh (filled_example ! 1) = Some 7" by (simp add: filled_example_def)
    with T len show ?thesis by simp
  qed
  have c: "demand_mwh (clean filled_example ! 3) = Some 7"
  proof -
    have 1: "demand_mwh (filled_example ! 1) = Some 7" by (simp add: filled_example_def)
    have 2: "\<forall>k. 1 < k \<and> k \<le> 3 \<longrightarrow> demand_mwh (filled_example ! k) = None"
    proof (intro allI impI)
      fix k :: nat assume "1 < k \<and> k \<le> 3"
      then have "k = 2 \<or> k = 3" by auto
      then show "demand_mwh (filled_example ! k) = None"
        by (auto simp: filled_example_def)
    qed
    from T have "\<forall>i j v. i < length filled_example \<longrightarrow> j < i \<longrightarrow>
      demand_mwh (filled_example ! j) = Some v \<longrightarrow>
      (\<forall>k. j < k \<and> k \<le> i \<longrightarrow> demand_mwh (filled_example ! k) = None) \<longrightarrow>
      demand_mwh (clean filled_example ! i) = Some v" by blast
    from this [rule_format, of 3 1 7] 1 2 len show ?thesis by simp
  qed
  have d: "timestamp (clean filled_example ! 3) = 3"
  proof -
    from T len have "timestamp (clean filled_example ! 3) = timestamp (filled_example ! 3)"
      by simp
    then show ?thesis by (simp add: filled_example_def)
  qed
  from a b c d show ?thesis by simp
qed

text \<open>
  C7: the Cleaner is idempotent. A frame with pairwise different timestamps and no missing
  demand value is returned unchanged, and cleaning the result of a cleaning changes nothing.
\<close>

theorem clean_fixed_point:
  "(distinct (map timestamp df) \<and> (\<forall>r \<in> set df. demand_mwh r \<noteq> None) \<longrightarrow> clean df = df) \<and>
   clean (clean df) = clean df"
proof (intro conjI impI)
  assume a: "distinct (map timestamp df) \<and> (\<forall>r \<in> set df. demand_mwh r \<noteq> None)"
  then have "None \<notin> set (map demand_mwh df)" by auto
  with a show "clean df = df" by (simp add: clean_notna_distinct)
next
  show "clean (clean df) = clean df" by (rule clean_clean)
qed

theorem clean_fixed_point_witness:
  "clean [\<lparr>timestamp = 3, demand_mwh = Some 40\<rparr>, \<lparr>timestamp = 1, demand_mwh = Some 50\<rparr>]
     = [\<lparr>timestamp = 3, demand_mwh = Some 40\<rparr>, \<lparr>timestamp = 1, demand_mwh = Some 50\<rparr>]"
proof -
  let ?df = "[\<lparr>timestamp = 3, demand_mwh = Some 40\<rparr>, \<lparr>timestamp = 1, demand_mwh = Some 50\<rparr>]"
  have h: "distinct (map timestamp ?df) \<and> (\<forall>r \<in> set ?df. demand_mwh r \<noteq> None)"
    by simp
  from clean_fixed_point [of ?df] h show ?thesis by blast
qed

section \<open>Properties of the feature columns\<close>

lemma length_shift [simp]: "length (shift n col) = length col"
  by (simp add: shift_def)

lemma nth_shift:
  "i < length col \<Longrightarrow> shift n col ! i = (if i < n then None else col ! (i - n))"
  by (auto simp: shift_def nth_append)

lemma length_rolling_mean [simp]: "length (rolling_mean w col) = length col"
  by (simp add: rolling_mean_def)

lemma nth_rolling_mean:
  "i < length col \<Longrightarrow>
   rolling_mean w col ! i =
     (if Suc i < w then None else window_mean w (take w (drop (Suc i - w) col)))"
  by (simp add: rolling_mean_def)

lemma shift_1_Cons: "col \<noteq> [] \<Longrightarrow> shift (Suc 0) col = None # butlast col"
  by (cases col) (auto simp: shift_def butlast_conv_take)

lemma window_mean_None_head: "window_mean w (None # win) = None"
  by (simp add: window_mean_def)

lemma window_shift_1:
  assumes "24 \<le> i" and "i < length col"
  shows "take 24 (drop (Suc i - 24) (shift (Suc 0) col)) = take 24 (drop (i - 24) col)"
proof -
  from assms have ne: "col \<noteq> []" by auto
  from assms(1) obtain k where k: "i = k + 24" by (metis le_add_diff_inverse2)
  have "take 24 (drop (Suc k) (shift (Suc 0) col)) = take 24 (drop k (butlast col))"
    by (simp add: shift_1_Cons [OF ne])
  also have "\<dots> = take 24 (drop k (take (length col - 1) col))"
    by (simp add: butlast_conv_take)
  also have "\<dots> = take 24 (take (length col - 1 - k) (drop k col))"
    by (simp add: drop_take)
  also have "\<dots> = take 24 (drop k col)"
    using assms(2) k by (simp add: min_def)
  finally show ?thesis using k by simp
qed

lemma nth_rolling_shift:
  assumes "i < length col"
  shows "rolling_mean 24 (shift (Suc 0) col) ! i =
           (if i < 24 then None else window_mean 24 (take 24 (drop (i - 24) col)))"
proof -
  from assms have ne: "col \<noteq> []" by auto
  consider "i < 23" | "i = 23" | "24 \<le> i" by linarith
  then show ?thesis
  proof cases
    case 1
    then show ?thesis using assms by (simp add: nth_rolling_mean)
  next
    case 2
    then show ?thesis
      using assms by (simp add: nth_rolling_mean shift_1_Cons [OF ne] window_mean_None_head)
  next
    case 3
    then show ?thesis
      using assms window_shift_1 [of i col] by (simp add: nth_rolling_mean)
  qed
qed

lemma window_mean_Some:
  "length vs = w \<Longrightarrow> window_mean w (map Some vs) = Some (rat_of_int (sum_list vs) / rat_of_nat w)"
  by (simp add: window_mean_def list_all_iff comp_def)

lemma window_mean_defined:
  "window_mean w win \<noteq> None \<longleftrightarrow> length win = w \<and> None \<notin> set win"
  by (auto simp: window_mean_def list_all_iff)

lemma notna_map_Some: "None \<notin> set col \<Longrightarrow> \<exists>vs. col = map Some vs"
proof (induction col)
  case Nil
  then show ?case by simp
next
  case (Cons a col)
  then obtain vs where "col = map Some vs" by auto
  moreover from Cons.prems obtain v where "a = Some v" by (cases a) auto
  ultimately have "a # col = map Some (v # vs)" by simp
  then show ?case by (rule exI)
qed

section \<open>Properties of the feature frame\<close>

lemma length_add_features [simp]: "length (add_features df) = length df"
  by (simp add: add_features_def Let_def)

lemma nth_add_features:
  assumes "i < length df"
  shows "timestamp (add_features df ! i) = timestamp (df ! i)"
    and "demand_mwh (add_features df ! i) = demand_mwh (df ! i)"
    and "hour (add_features df ! i) = index_hour (timestamp (df ! i))"
    and "day_of_week (add_features df ! i) = index_dayofweek (timestamp (df ! i))"
    and "day_of_year (add_features df ! i) = index_dayofyear (timestamp (df ! i))"
    and "month (add_features df ! i) = index_month (timestamp (df ! i))"
    and "year (add_features df ! i) = index_year (timestamp (df ! i))"
    and "lag_demand_24h (add_features df ! i) =
           (if i < 24 then None else demand_mwh (df ! (i - 24)))"
    and "lag_demand_1_week (add_features df ! i) =
           (if i < 168 then None else demand_mwh (df ! (i - 168)))"
    and "rolling_mean_24h (add_features df ! i) =
           (if i < 24 then None
            else window_mean 24 (take 24 (drop (i - 24) (map demand_mwh df))))"
  using assms by (simp_all add: add_features_def Let_def nth_shift nth_rolling_shift)

lemma timestamps_add_features: "map timestamp (add_features df) = map timestamp df"
  by (rule nth_equalityI) (simp_all add: nth_add_features)

section \<open>Properties of \<open>transform_data\<close>\<close>

lemma notna_row_add_features:
  assumes "i < length df"
  shows "notna_row (add_features df ! i) \<longleftrightarrow>
           168 \<le> i \<and> demand_mwh (df ! i) \<noteq> None \<and> demand_mwh (df ! (i - 24)) \<noteq> None \<and>
           demand_mwh (df ! (i - 168)) \<noteq> None \<and>
           None \<notin> set (take 24 (drop (i - 24) (map demand_mwh df)))"
proof (cases "168 \<le> i")
  case True
  then have "24 \<le> i" by simp
  with assms have "length (take 24 (drop (i - 24) (map demand_mwh df))) = 24" by simp
  then have "window_mean 24 (take 24 (drop (i - 24) (map demand_mwh df))) \<noteq> None \<longleftrightarrow>
      None \<notin> set (take 24 (drop (i - 24) (map demand_mwh df)))"
    by (simp only: window_mean_defined simp_thms)
  with True assms show ?thesis
    by (simp add: notna_row_def nth_add_features del: not_None_eq)
next
  case False
  with assms show ?thesis by (simp add: notna_row_def nth_add_features)
qed

lemma in_transform_data:
  "r \<in> set (transform_data df) \<longleftrightarrow>
     (\<exists>i < length (clean df). r = add_features (clean df) ! i \<and> notna_row r)"
  by (auto simp: transform_data_def dropna_def in_set_conv_nth)

lemma filter_eq_drop:
  assumes "\<forall>i < length xs. P (xs ! i) \<longleftrightarrow> n \<le> i"
  shows "filter P xs = drop n xs"
proof -
  have a: "filter P (take n xs) = []"
    using assms by (auto simp: filter_empty_conv in_set_conv_nth)
  have b: "filter P (drop n xs) = drop n xs"
    using assms by (auto simp: filter_id_conv in_set_conv_nth)
  have "filter P xs = filter P (take n xs @ drop n xs)" by simp
  also have "\<dots> = drop n xs" unfolding filter_append a b by simp
  finally show ?thesis .
qed

lemma dropna_notna_frame:
  assumes "None \<notin> set (map demand_mwh df)"
  shows "dropna (add_features df) = drop 168 (add_features df)"
  unfolding dropna_def
proof (rule filter_eq_drop, intro allI impI)
  fix i assume "i < length (add_features df)"
  then have i: "i < length df" by simp
  have all: "\<And>k. k < length df \<Longrightarrow> demand_mwh (df ! k) \<noteq> None"
    using assms by (metis length_map nth_map nth_mem)
  have "set (take 24 (drop (i - 24) (map demand_mwh df))) \<subseteq> set (map demand_mwh df)"
    by (meson set_drop_subset set_take_subset subset_trans)
  with assms have win: "None \<notin> set (take 24 (drop (i - 24) (map demand_mwh df)))" by blast
  have "i - 24 < length df" "i - 168 < length df" using i by simp_all
  with all i win show "notna_row (add_features df ! i) \<longleftrightarrow> 168 \<le> i"
    by (simp add: notna_row_add_features)
qed

lemma clean_notna:
  assumes "None \<notin> set (map demand_mwh df)"
  shows "clean df = drop_duplicated df"
proof -
  have "set (drop_duplicated df) \<subseteq> set df"
    unfolding drop_duplicated_def select_mask_def
    by (auto dest: set_zip_leftD)
  with assms have "None \<notin> set (map demand_mwh (drop_duplicated df))" by auto
  then have "isnull_sum (map demand_mwh (drop_duplicated df)) = 0"
    by (simp add: isnull_sum_0)
  then show ?thesis by (simp add: clean_def Let_def)
qed

lemma transform_data_notna:
  assumes "None \<notin> set (map demand_mwh df)"
  shows "transform_data df = drop 168 (add_features (drop_duplicated df))"
proof -
  have "set (drop_duplicated df) \<subseteq> set df"
    unfolding drop_duplicated_def select_mask_def
    by (auto dest: set_zip_leftD)
  with assms have "None \<notin> set (map demand_mwh (drop_duplicated df))" by auto
  then show ?thesis
    by (simp add: transform_data_def clean_notna [OF assms] dropna_notna_frame)
qed

lemma window_values:
  assumes "24 \<le> i" "i < length col" "None \<notin> set (take 24 (drop (i - 24) col))"
  shows "\<exists>vs. length vs = 24 \<and> (\<forall>k<24. col ! (i - 24 + k) = Some (vs ! k)) \<and>
           window_mean 24 (take 24 (drop (i - 24) col)) = Some (rat_of_int (sum_list vs) / 24)"
proof -
  from notna_map_Some [OF assms(3)] obtain vs
    where vs: "take 24 (drop (i - 24) col) = map Some vs" by blast
  have "length (take 24 (drop (i - 24) col)) = 24" using assms by simp
  with vs have len: "length vs = 24" by simp
  have nth: "col ! (i - 24 + k) = Some (vs ! k)" if "k < 24" for k
  proof -
    have "take 24 (drop (i - 24) col) ! k = col ! (i - 24 + k)"
      using that assms by simp
    with vs that len show ?thesis by simp
  qed
  have "window_mean 24 (map Some vs) = Some (rat_of_int (sum_list vs) / rat_of_nat 24)"
    using len by (rule window_mean_Some)
  with vs len nth show ?thesis by auto
qed

lemma lookback_prefix:
  assumes "i < length a" "i < length b" "take i a = take i b"
  shows "lag_demand_24h (add_features a ! i) = lag_demand_24h (add_features b ! i)"
    and "lag_demand_1_week (add_features a ! i) = lag_demand_1_week (add_features b ! i)"
    and "rolling_mean_24h (add_features a ! i) = rolling_mean_24h (add_features b ! i)"
proof -
  have nth: "a ! k = b ! k" if "k < i" for k
  proof -
    have "a ! k = take i a ! k" using that by simp
    also have "\<dots> = take i b ! k" using assms(3) by simp
    also have "\<dots> = b ! k" using that by simp
    finally show ?thesis .
  qed
  show "lag_demand_24h (add_features a ! i) = lag_demand_24h (add_features b ! i)"
    using assms nth [of "i - 24"] by (simp add: nth_add_features)
  show "lag_demand_1_week (add_features a ! i) = lag_demand_1_week (add_features b ! i)"
    using assms nth [of "i - 168"] by (simp add: nth_add_features)
  have win: "take 24 (drop (i - 24) (map demand_mwh x)) = drop (i - 24) (map demand_mwh (take i x))"
    if "24 \<le> i" for x :: "raw_row list"
  proof -
    from that have e: "i - (i - 24) = 24" by arith
    have "drop (i - 24) (take i x) = take (i - (i - 24)) (drop (i - 24) x)"
      by (rule drop_take)
    then have "drop (i - 24) (take i x) = take 24 (drop (i - 24) x)"
      unfolding e .
    then have "map demand_mwh (drop (i - 24) (take i x)) = map demand_mwh (take 24 (drop (i - 24) x))"
      by (rule arg_cong)
    then show ?thesis by (simp only: take_map drop_map)
  qed
  show "rolling_mean_24h (add_features a ! i) = rolling_mean_24h (add_features b ! i)"
    using assms by (simp add: nth_add_features win)
qed

section \<open>The 200-row scenario\<close>

lemma length_scenario: "length scenario = 200"
  by (simp add: scenario_def)

lemma nth_scenario:
  "i < 200 \<Longrightarrow> scenario ! i = \<lparr>timestamp = 473352 + int i, demand_mwh = Some (1000 + int i)\<rparr>"
  by (simp add: scenario_def del: upt_rec_numeral)

lemma timestamps_scenario: "map timestamp scenario = map (\<lambda>i. 473352 + int i) [0..<200]"
  by (simp add: scenario_def comp_def del: upt_rec_numeral)

lemma demand_scenario: "map demand_mwh scenario = map Some (map (\<lambda>i. 1000 + int i) [0..<200])"
  by (simp add: scenario_def comp_def del: upt_rec_numeral)

lemma distinct_scenario: "distinct (map timestamp scenario)"
  unfolding timestamps_scenario by (simp add: distinct_map inj_on_def del: upt_rec_numeral)

lemma notna_scenario: "None \<notin> set (map demand_mwh scenario)"
  unfolding demand_scenario by (auto simp del: upt_rec_numeral)

lemma drop_duplicated_scenario: "drop_duplicated scenario = scenario"
  unfolding drop_duplicated_def using distinct_scenario by (simp add: keep_unseen_distinct_id)

lemma transform_data_scenario: "transform_data scenario = drop 168 (add_features scenario)"
  using transform_data_notna [OF notna_scenario] by (simp add: drop_duplicated_scenario)

lemma length_transform_data_scenario: "length (transform_data scenario) = 32"
  by (simp add: transform_data_scenario length_scenario)

lemma hd_transform_data_scenario: "hd (transform_data scenario) = add_features scenario ! 168"
  by (simp add: transform_data_scenario hd_drop_conv_nth length_scenario)

lemma window_scenario:
  "take 24 (drop 144 (map demand_mwh scenario)) = map Some (map (\<lambda>i. 1000 + int i) [144..<168])"
proof -
  have "drop 144 [0..<200] = [144..<200]" by (simp del: upt_rec_numeral)
  moreover have "take 24 [144..<200] = [144..<168]" by (simp del: upt_rec_numeral)
  ultimately have "take 24 (drop 144 [0..<200]) = [144..<168]" by simp
  then show ?thesis
    unfolding demand_scenario by (simp only: take_map drop_map)
qed

lemma rolling_scenario:
  "rolling_mean_24h (hd (transform_data scenario)) = Some (mean_of (demands 144 168))"
proof -
  have "rolling_mean_24h (add_features scenario ! 168) =
          window_mean 24 (take 24 (drop 144 (map demand_mwh scenario)))"
    by (simp add: nth_add_features length_scenario)
  also have "\<dots> = Some (rat_of_int (sum_list (map (\<lambda>i. 1000 + int i) [144..<168])) / rat_of_nat 24)"
    unfolding window_scenario by (rule window_mean_Some) (simp del: upt_rec_numeral)
  finally show ?thesis
    by (simp add: hd_transform_data_scenario mean_of_def demands_def del: upt_rec_numeral)
qed

lemma mean_144_168: "mean_of (demands 144 168) = 2311 / 2"
  by (simp add: mean_of_def demands_def)

lemma mean_120_144: "mean_of (demands 120 144) = 2263 / 2"
  by (simp add: mean_of_def demands_def)

lemma first_row_scenario:
  "timestamp (hd (transform_data scenario)) = 473520"
  "demand_mwh (hd (transform_data scenario)) = Some 1168"
  "lag_demand_24h (hd (transform_data scenario)) = Some 1144"
  "lag_demand_1_week (hd (transform_data scenario)) = Some 1000"
  by (simp_all add: hd_transform_data_scenario nth_add_features length_scenario nth_scenario)

lemmas calendar_defs = index_year_def index_month_def index_dayofyear_def index_hour_def
  index_dayofweek_def era_def day_of_era_def year_of_era_def day_of_march_year_def
  march_month_def calendar_month_def is_leap_year_def

lemma calendar_473520:
  "index_year 473520 = 2024" "index_month 473520 = 1" "index_dayofyear 473520 = 8"
  "index_hour 473520 = 0" "index_dayofweek 473520 = 0"
  by (simp_all add: calendar_defs)

lemma timestamps_transform_data_scenario:
  "map timestamp (transform_data scenario) = map (\<lambda>i. 473352 + int i) [168..<200]"
proof -
  have "map timestamp (transform_data scenario) = drop 168 (map timestamp scenario)"
    by (simp only: transform_data_scenario drop_map [symmetric] timestamps_add_features)
  also have "\<dots> = map (\<lambda>i. 473352 + int i) (drop 168 [0..<200])"
    unfolding timestamps_scenario by (simp only: drop_map [symmetric])
  also have "drop 168 [0..<200] = [168..<200]" by (simp del: upt_rec_numeral)
  finally show ?thesis .
qed

section \<open>Claims about the feature builder and the final trimming\<close>

lemma keep_unseen_append:
  "keep_unseen seen (xs @ ys) =
     keep_unseen seen xs @ keep_unseen (rev (map timestamp xs) @ seen) ys"
  by (induction xs arbitrary: seen) auto

lemma drop_duplicated_dup_scenario: "drop_duplicated dup_scenario = scenario"
proof -
  have "(473352::int) \<in> set (map timestamp scenario)"
    unfolding timestamps_scenario by (auto simp del: upt_rec_numeral)
  then have "keep_unseen (rev (map timestamp scenario) @ [])
               [\<lparr>timestamp = 473352, demand_mwh = Some 7\<rparr>] = []"
    by simp
  then show ?thesis
    unfolding drop_duplicated_def dup_scenario_def keep_unseen_append
    using drop_duplicated_scenario [unfolded drop_duplicated_def] by simp
qed

lemma duplicates_dup_scenario:
  "length (filter id (duplicated [] (map timestamp dup_scenario))) = 1"
proof -
  have "length (drop_duplicated dup_scenario) +
          length (filter id (duplicated [] (map timestamp dup_scenario))) = length dup_scenario"
    unfolding drop_duplicated_def by (rule length_keep_unseen)
  moreover have "length dup_scenario = 201"
    by (simp add: dup_scenario_def length_scenario)
  ultimately show ?thesis
    by (simp add: drop_duplicated_dup_scenario length_scenario)
qed

lemma clean_gap_scenario: "clean gap_scenario = gap_scenario"
proof -
  have "(473351::int) \<notin> set (map timestamp scenario)"
    unfolding timestamps_scenario by (auto simp del: upt_rec_numeral)
  with distinct_scenario have "distinct (map timestamp gap_scenario)"
    by (simp add: gap_scenario_def)
  then have d: "drop_duplicated gap_scenario = gap_scenario"
    unfolding drop_duplicated_def by (simp add: keep_unseen_distinct_id)
  have "ffill (map demand_mwh gap_scenario) = None # ffill_from None (map demand_mwh scenario)"
    by (simp add: ffill_def gap_scenario_def)
  also have "ffill_from None (map demand_mwh scenario) = map demand_mwh scenario"
    using notna_scenario by (rule ffill_from_notna)
  finally have "ffill (map demand_mwh gap_scenario) = map demand_mwh gap_scenario"
    by (simp add: gap_scenario_def)
  then show ?thesis by (simp add: clean_eq d set_demand_same)
qed

lemma distinct_timestamps_clean: "distinct (map timestamp (clean df))"
  unfolding timestamps_clean drop_duplicated_def by (rule distinct_keep_unseen)

text \<open>
  C1: strict look-back. Every row of the output of \<open>transform_data\<close> is the feature row of
  some position \<open>i \<ge> 168\<close> of the cleaned frame; its \<open>lag_demand_24h\<close> is the demand of the
  24th prior row, its \<open>lag_demand_1_week\<close> the demand of the 168th prior row, and its
  \<open>rolling_mean_24h\<close> the mean of the demands of the 24 prior rows \<open>i - 24\<close> to \<open>i - 1\<close>
  (the mean as an exact rational). No look-back feature depends on the row at \<open>i\<close> or on
  any later row: two frames that agree on their first \<open>i\<close> rows have the same three
  look-back features at position \<open>i\<close>.
\<close>

theorem lookback_strictly_prior:
  "(\<forall>r \<in> set (transform_data df).
      \<exists>i. 168 \<le> i \<and> i < length (clean df) \<and> r = add_features (clean df) ! i \<and>
          timestamp r = timestamp (clean df ! i) \<and>
          lag_demand_24h r = demand_mwh (clean df ! (i - 24)) \<and>
          lag_demand_1_week r = demand_mwh (clean df ! (i - 168)) \<and>
          (\<exists>vs. length vs = 24 \<and>
                (\<forall>k<24. demand_mwh (clean df ! (i - 24 + k)) = Some (vs ! k)) \<and>
                rolling_mean_24h r = Some (rat_of_int (sum_list vs) / 24))) \<and>
   (i < length a \<and> i < length b \<and> take i a = take i b \<longrightarrow>
      lag_demand_24h (add_features a ! i) = lag_demand_24h (add_features b ! i) \<and>
      lag_demand_1_week (add_features a ! i) = lag_demand_1_week (add_features b ! i) \<and>
      rolling_mean_24h (add_features a ! i) = rolling_mean_24h (add_features b ! i))"
proof (intro conjI ballI impI)
  fix r assume "r \<in> set (transform_data df)"
  let ?c = "clean df"
  from \<open>r \<in> set (transform_data df)\<close> obtain i
    where i: "i < length ?c" and r: "r = add_features ?c ! i" and na: "notna_row r"
    unfolding in_transform_data by blast
  from na r i have ge: "168 \<le> i"
    and win: "None \<notin> set (take 24 (drop (i - 24) (map demand_mwh ?c)))"
    by (simp_all add: notna_row_add_features)
  from ge have ge24: "24 \<le> i" by simp
  from window_values [OF ge24 _ win] i obtain vs where vs: "length vs = 24"
    "\<forall>k<24. map demand_mwh ?c ! (i - 24 + k) = Some (vs ! k)"
    "window_mean 24 (take 24 (drop (i - 24) (map demand_mwh ?c))) = Some (rat_of_int (sum_list vs) / 24)"
    by auto
  have vals: "\<forall>k<24. demand_mwh (?c ! (i - 24 + k)) = Some (vs ! k)"
  proof (intro allI impI)
    fix k :: nat assume k: "k < 24"
    with ge24 i have "i - 24 + k < length ?c" by simp
    then have "map demand_mwh ?c ! (i - 24 + k) = demand_mwh (?c ! (i - 24 + k))" by simp
    with vs(2) k show "demand_mwh (?c ! (i - 24 + k)) = Some (vs ! k)" by simp
  qed
  have "rolling_mean_24h r = Some (rat_of_int (sum_list vs) / 24)"
    using r i ge24 vs(3) by (simp add: nth_add_features)
  with vs(1) vals have roll: "\<exists>vs. length vs = 24 \<and>
      (\<forall>k<24. demand_mwh (?c ! (i - 24 + k)) = Some (vs ! k)) \<and>
      rolling_mean_24h r = Some (rat_of_int (sum_list vs) / 24)" by blast
  have "timestamp r = timestamp (?c ! i)"
    "lag_demand_24h r = demand_mwh (?c ! (i - 24))"
    "lag_demand_1_week r = demand_mwh (?c ! (i - 168))"
    using r i ge by (simp_all add: nth_add_features)
  with ge i r roll
  show "\<exists>i. 168 \<le> i \<and> i < length ?c \<and> r = add_features ?c ! i \<and>
          timestamp r = timestamp (?c ! i) \<and>
          lag_demand_24h r = demand_mwh (?c ! (i - 24)) \<and>
          lag_demand_1_week r = demand_mwh (?c ! (i - 168)) \<and>
          (\<exists>vs. length vs = 24 \<and>
                (\<forall>k<24. demand_mwh (?c ! (i - 24 + k)) = Some (vs ! k)) \<and>
                rolling_mean_24h r = Some (rat_of_int (sum_list vs) / 24))"
    by blast
next
  assume h: "i < length a \<and> i < length b \<and> take i a = take i b"
  then show "lag_demand_24h (add_features a ! i) = lag_demand_24h (add_features b ! i)"
    by (intro lookback_prefix) simp_all
  from h show "lag_demand_1_week (add_features a ! i) = lag_demand_1_week (add_features b ! i)"
    by (intro lookback_prefix) simp_all
  from h show "rolling_mean_24h (add_features a ! i) = rolling_mean_24h (add_features b ! i)"
    by (intro lookback_prefix) simp_all
qed

lemma hd_in_transform_data_scenario: "hd (transform_data scenario) \<in> set (transform_data scenario)"
proof -
  have "transform_data scenario \<noteq> []"
    using length_transform_data_scenario by auto
  then show ?thesis by (rule hd_in_set)
qed

text \<open>C1 on the scenario: its first output row, and a frame that differs from row 168 on.\<close>

theorem lookback_strictly_prior_witness:
  "(\<exists>i. 168 \<le> i \<and> i < length (clean scenario) \<and>
        hd (transform_data scenario) = add_features (clean scenario) ! i \<and>
        lag_demand_24h (hd (transform_data scenario)) = demand_mwh (clean scenario ! (i - 24)) \<and>
        lag_demand_1_week (hd (transform_data scenario)) = demand_mwh (clean scenario ! (i - 168))) \<and>
   lag_demand_24h (add_features scenario ! 168) = lag_demand_24h (add_features other_future ! 168) \<and>
   lag_demand_1_week (add_features scenario ! 168) = lag_demand_1_week (add_features other_future ! 168) \<and>
   rolling_mean_24h (add_features scenario ! 168) = rolling_mean_24h (add_features other_future ! 168) \<and>
   scenario ! 168 \<noteq> other_future ! 168"
proof -
  note T = lookback_strictly_prior [of scenario 168 scenario other_future]
  have h: "168 < length scenario \<and> 168 < length other_future \<and>
           take 168 scenario = take 168 other_future"
    by (simp add: length_scenario other_future_def)
  have ne: "scenario ! 168 \<noteq> other_future ! 168"
  proof -
    have "other_future ! 168 = \<lparr>timestamp = 500000, demand_mwh = None\<rparr>"
      by (simp add: other_future_def nth_append length_scenario)
    then show ?thesis by (simp add: nth_scenario)
  qed
  from T hd_in_transform_data_scenario
  have "\<exists>i. 168 \<le> i \<and> i < length (clean scenario) \<and>
        hd (transform_data scenario) = add_features (clean scenario) ! i \<and>
        lag_demand_24h (hd (transform_data scenario)) = demand_mwh (clean scenario ! (i - 24)) \<and>
        lag_demand_1_week (hd (transform_data scenario)) = demand_mwh (clean scenario ! (i - 168))"
    by blast
  moreover from T h have
    "lag_demand_24h (add_features scenario ! 168) = lag_demand_24h (add_features other_future ! 168) \<and>
     lag_demand_1_week (add_features scenario ! 168) = lag_demand_1_week (add_features other_future ! 168) \<and>
     rolling_mean_24h (add_features scenario ! 168) = rolling_mean_24h (add_features other_future ! 168)"
    by blast
  ultimately show ?thesis using ne by blast
qed

text \<open>
  C2, as stated, fails on the scenario: the rolling mean of the first output row is not the
  mean of the demands of rows 120 to 143.
\<close>

theorem scenario_rolling_mean_counterexample:
  "rolling_mean_24h (hd (transform_data scenario)) \<noteq> Some (mean_of (demands 120 144))"
  by (simp add: rolling_scenario mean_144_168 mean_120_144)

text \<open>
  C2, amended: for a frame of length \<open>L\<close> with \<open>D\<close> rows flagged as duplicates and no
  missing demand value, the output has \<open>L - D - 168\<close> rows when \<open>L - D > 168\<close>. For the
  scenario the output has 32 rows, those of the rows 168 to 199; the first one is the row of
  2024-01-08T00:00Z with \<open>lag_demand_24h = 1000 + 144\<close>, \<open>lag_demand_1_week = 1000 + 0\<close> and
  \<open>rolling_mean_24h\<close> the mean of the demands of rows 144 to 167.
\<close>

theorem transform_data_row_count:
  "((\<forall>r \<in> set df. demand_mwh r \<noteq> None) \<and>
      168 < length df - length (filter id (duplicated [] (map timestamp df))) \<longrightarrow>
    length (transform_data df) =
      length df - length (filter id (duplicated [] (map timestamp df))) - 168) \<and>
   length (transform_data scenario) = 32 \<and>
   map timestamp (transform_data scenario) = map timestamp (drop 168 scenario) \<and>
   timestamp (hd (transform_data scenario)) = 473520 \<and>
   year (hd (transform_data scenario)) = 2024 \<and>
   month (hd (transform_data scenario)) = 1 \<and>
   day_of_year (hd (transform_data scenario)) = 8 \<and>
   hour (hd (transform_data scenario)) = 0 \<and>
   lag_demand_24h (hd (transform_data scenario)) = Some (1000 + 144) \<and>
   lag_demand_1_week (hd (transform_data scenario)) = Some (1000 + 0) \<and>
   rolling_mean_24h (hd (transform_data scenario)) = Some (mean_of (demands 144 168))"
proof (intro conjI impI)
  assume h: "(\<forall>r \<in> set df. demand_mwh r \<noteq> None) \<and>
      168 < length df - length (filter id (duplicated [] (map timestamp df)))"
  then have na: "None \<notin> set (map demand_mwh df)" by auto
  have len: "length (drop_duplicated df) + length (filter id (duplicated [] (map timestamp df)))
               = length df"
    unfolding drop_duplicated_def by (rule length_keep_unseen)
  have "length (transform_data df) = length (drop_duplicated df) - 168"
    by (simp add: transform_data_notna [OF na])
  with len show "length (transform_data df) =
      length df - length (filter id (duplicated [] (map timestamp df))) - 168"
    by simp
next
  show "length (transform_data scenario) = 32" by (rule length_transform_data_scenario)
  show "map timestamp (transform_data scenario) = map timestamp (drop 168 scenario)"
    by (simp only: transform_data_scenario drop_map [symmetric] timestamps_add_features)
  show "timestamp (hd (transform_data scenario)) = 473520" by (rule first_row_scenario)
  show "year (hd (transform_data scenario)) = 2024"
    by (simp add: hd_transform_data_scenario nth_add_features length_scenario nth_scenario
        calendar_473520)
  show "month (hd (transform_data scenario)) = 1"
    by (simp add: hd_transform_data_scenario nth_add_features length_scenario nth_scenario
        calendar_473520)
  show "day_of_year (hd (transform_data scenario)) = 8"
    by (simp add: hd_transform_data_scenario nth_add_features length_scenario nth_scenario
        calendar_473520)
  show "hour (hd (transform_data scenario)) = 0"
    by (simp add: hd_transform_data_scenario nth_add_features length_scenario nth_scenario
        calendar_473520)
  show "lag_demand_24h (hd (transform_data scenario)) = Some (1000 + 144)"
    by (simp add: first_row_scenario)
  show "lag_demand_1_week (hd (transform_data scenario)) = Some (1000 + 0)"
    by (simp add: first_row_scenario)
  show "rolling_mean_24h (hd (transform_data scenario)) = Some (mean_of (demands 144 168))"
    by (rule rolling_scenario)
qed

lemma notna_dup_scenario: "\<forall>r \<in> set dup_scenario. demand_mwh r \<noteq> None"
proof
  fix r assume "r \<in> set dup_scenario"
  then consider "r \<in> set scenario" | "r = \<lparr>timestamp = 473352, demand_mwh = Some 7\<rparr>"
    by (auto simp: dup_scenario_def)
  then show "demand_mwh r \<noteq> None"
  proof cases
    case 1
    then have "demand_mwh r \<in> set (map demand_mwh scenario)" by simp
    with notna_scenario show ?thesis by metis
  next
    case 2
    then show ?thesis by simp
  qed
qed

text \<open>C2 on the scenario with one duplicate: 201 rows, one flagged, 32 rows out.\<close>

theorem transform_data_row_count_witness:
  "length dup_scenario = 201 \<and>
   length (filter id (duplicated [] (map timestamp dup_scenario))) = 1 \<and>
   length (transform_data dup_scenario) = 32"
proof -
  have len: "length dup_scenario = 201" by (simp add: dup_scenario_def length_scenario)
  note d = duplicates_dup_scenario
  have h: "(\<forall>r \<in> set dup_scenario. demand_mwh r \<noteq> None) \<and>
      168 < length dup_scenario - length (filter id (duplicated [] (map timestamp dup_scenario)))"
    using notna_dup_scenario by (simp add: len d)
  from transform_data_row_count [of dup_scenario] h
  have "length (transform_data dup_scenario) =
      length dup_scenario - length (filter id (duplicated [] (map timestamp dup_scenario))) - 168"
    by blast
  then have "length (transform_data dup_scenario) = 32" by (simp add: len d)
  with len d show ?thesis by simp
qed

text \<open>
  C10: every row of the output has a value in every column, the target \<open>demand_mwh\<close>
  included; and a row of the cleaned frame whose demand is still missing after the forward
  fill has no row in the output.
\<close>

theorem output_rows_have_no_missing_value:
  "(\<forall>r \<in> set (transform_data df).
      demand_mwh r \<noteq> None \<and> lag_demand_24h r \<noteq> None \<and>
      lag_demand_1_week r \<noteq> None \<and> rolling_mean_24h r \<noteq> None) \<and>
   (\<forall>i < length (clean df). demand_mwh (clean df ! i) = None \<longrightarrow>
      timestamp (clean df ! i) \<notin> set (map timestamp (transform_data df)))"
proof (intro conjI ballI allI impI)
  fix r assume "r \<in> set (transform_data df)"
  then have "notna_row r" by (simp add: transform_data_def dropna_def)
  then show "demand_mwh r \<noteq> None" "lag_demand_24h r \<noteq> None"
    "lag_demand_1_week r \<noteq> None" "rolling_mean_24h r \<noteq> None"
    by (simp_all add: notna_row_def)
next
  fix i assume i: "i < length (clean df)" and none: "demand_mwh (clean df ! i) = None"
  let ?c = "clean df"
  show "timestamp (?c ! i) \<notin> set (map timestamp (transform_data df))"
  proof
    assume "timestamp (?c ! i) \<in> set (map timestamp (transform_data df))"
    then obtain r where r: "r \<in> set (transform_data df)" and t: "timestamp r = timestamp (?c ! i)"
      by auto
    from r obtain j where j: "j < length ?c" and rj: "r = add_features ?c ! j" and na: "notna_row r"
      unfolding in_transform_data by blast
    from rj j have "timestamp r = timestamp (?c ! j)" by (simp add: nth_add_features)
    with t have "map timestamp ?c ! i = map timestamp ?c ! j" using i j by simp
    with nth_eq_iff_index_eq [OF distinct_timestamps_clean [of df], of i j] i j have "i = j"
      by simp
    with rj j none have "demand_mwh r = None" by (simp add: nth_add_features)
    with na show False by (simp add: notna_row_def)
  qed
qed

lemma length_gap_scenario: "length gap_scenario = 201"
  by (simp add: gap_scenario_def length_scenario)

lemma nth_gap_scenario: "k < 200 \<Longrightarrow> gap_scenario ! Suc k = scenario ! k"
  by (simp add: gap_scenario_def)

lemma row_169_gap_scenario:
  "add_features (clean gap_scenario) ! 169 \<in> set (transform_data gap_scenario)"
proof -
  have win: "None \<notin> set (take 24 (drop (169 - 24) (map demand_mwh gap_scenario)))"
  proof -
    have "set (take 24 (drop 144 (map demand_mwh scenario))) \<subseteq> set (map demand_mwh scenario)"
      by (meson set_drop_subset set_take_subset subset_trans)
    with notna_scenario have "None \<notin> set (take 24 (drop 144 (map demand_mwh scenario)))"
      by blast
    then show ?thesis by (simp add: gap_scenario_def)
  qed
  have a: "demand_mwh (gap_scenario ! 169) \<noteq> None"
    using nth_gap_scenario [of 168] by (simp add: nth_scenario)
  have b: "demand_mwh (gap_scenario ! (169 - 24)) \<noteq> None"
    using nth_gap_scenario [of 144] by (simp add: nth_scenario)
  have c: "demand_mwh (gap_scenario ! (169 - 168)) \<noteq> None"
    using nth_gap_scenario [of 0] by (simp add: nth_scenario)
  have "notna_row (add_features gap_scenario ! 169)"
    using a b c win by (simp add: notna_row_add_features length_gap_scenario del: not_None_eq)
  then show ?thesis
    unfolding in_transform_data clean_gap_scenario
    using length_gap_scenario by (intro exI [of _ 169]) simp
qed

text \<open>C10 on the scenario with a leading gap of one hour.\<close>

theorem output_rows_have_no_missing_value_witness:
  "demand_mwh (clean gap_scenario ! 0) = None \<and>
   timestamp (clean gap_scenario ! 0) = 473351 \<and>
   473351 \<notin> set (map timestamp (transform_data gap_scenario)) \<and>
   add_features (clean gap_scenario) ! 169 \<in> set (transform_data gap_scenario) \<and>
   demand_mwh (add_features (clean gap_scenario) ! 169) \<noteq> None \<and>
   lag_demand_24h (add_features (clean gap_scenario) ! 169) \<noteq> None \<and>
   lag_demand_1_week (add_features (clean gap_scenario) ! 169) \<noteq> None \<and>
   rolling_mean_24h (add_features (clean gap_scenario) ! 169) \<noteq> None"
proof -
  note T = output_rows_have_no_missing_value [of gap_scenario]
  have z: "0 < length (clean gap_scenario)"
    by (simp add: clean_gap_scenario length_gap_scenario)
  have n: "demand_mwh (clean gap_scenario ! 0) = None"
    unfolding clean_gap_scenario by (simp add: gap_scenario_def)
  have t: "timestamp (clean gap_scenario ! 0) = 473351"
    unfolding clean_gap_scenario by (simp add: gap_scenario_def)
  from T z n have "timestamp (clean gap_scenario ! 0) \<notin> set (map timestamp (transform_data gap_scenario))"
    by blast
  with t have out: "473351 \<notin> set (map timestamp (transform_data gap_scenario))" by simp
  from T row_169_gap_scenario
  have "demand_mwh (add_features (clean gap_scenario) ! 169) \<noteq> None \<and>
   lag_demand_24h (add_features (clean gap_scenario) ! 169) \<noteq> None \<and>
   lag_demand_1_week (add_features (clean gap_scenario) ! 169) \<noteq> None \<and>
   rolling_mean_24h (add_features (clean gap_scenario) ! 169) \<noteq> None"
    by blast
  with n t out row_169_gap_scenario show ?thesis by blast
qed

section \<open>Properties of the main block\<close>

lemma transform_data_short:
  assumes "length (drop_duplicated df) \<le> 168"
  shows "transform_data df = []"
proof -
  have "\<not> notna_row r" if "r \<in> set (add_features (clean df))" for r
  proof -
    from that obtain i where i: "i < length (clean df)" and r: "r = add_features (clean df) ! i"
      by (auto simp: in_set_conv_nth)
    from i assms have "i < 168" by (simp add: length_clean)
    with i r show ?thesis by (simp add: notna_row_add_features)
  qed
  then show ?thesis by (simp add: transform_data_def dropna_def filter_empty_conv)
qed

lemma strictly_increasing_transform_data:
  assumes "sorted (map timestamp df)"
  shows "sorted_wrt (<) (map timestamp (transform_data df))"
proof -
  let ?c = "clean df"
  have s: "sorted (map timestamp ?c)"
    unfolding timestamps_clean drop_duplicated_def using assms by (rule sorted_keep_unseen)
  have d: "distinct (map timestamp ?c)" by (rule distinct_timestamps_clean)
  have "sorted (map timestamp (filter notna_row (add_features ?c)))"
    using s timestamps_add_features [of ?c] by (metis sorted_filter)
  moreover have "distinct (map timestamp (filter notna_row (add_features ?c)))"
    using d timestamps_add_features [of ?c] by (metis distinct_map_filter)
  ultimately show ?thesis
    by (simp add: transform_data_def dropna_def strict_sorted_iff)
qed

lemma sorted_sort_index: "sorted (map timestamp (sort_index rows))"
  by (simp add: sort_index_def)

lemma main_saved:
  assumes "fst (main w) = Saved"
  shows "\<exists>rows. raw_demand w = Some rows \<and>
           snd (main w) = w\<lparr>features_demand := Some (transform_data (sort_index rows))\<rparr>"
  using assms
  by (auto simp: main_def get_sql_engine_def load_raw_data_def save_features_data_def Let_def
      split: option.splits if_splits)

text \<open>
  C8: the rows of the output feature table are strictly increasing by timestamp, whatever
  the order of the raw table. \<open>transform_data\<close> turns any frame sorted by timestamp into a
  strictly increasing one; the loader sorts; so a run that saves a table saves a strictly
  increasing one.
\<close>

theorem feature_table_strictly_increasing:
  "(sorted (map timestamp df) \<longrightarrow> sorted_wrt (<) (map timestamp (transform_data df))) \<and>
   sorted_wrt (<) (map timestamp (transform_data (sort_index rows))) \<and>
   (fst (main w) = Saved \<longrightarrow>
      (\<exists>t. features_demand (snd (main w)) = Some t \<and> sorted_wrt (<) (map timestamp t)))"
proof (intro conjI impI)
  assume "sorted (map timestamp df)"
  then show "sorted_wrt (<) (map timestamp (transform_data df))"
    by (rule strictly_increasing_transform_data)
next
  show "sorted_wrt (<) (map timestamp (transform_data (sort_index rows)))"
    using sorted_sort_index by (rule strictly_increasing_transform_data)
next
  assume "fst (main w) = Saved"
  from main_saved [OF this] obtain rs where
    "snd (main w) = w\<lparr>features_demand := Some (transform_data (sort_index rs))\<rparr>" by blast
  then have "features_demand (snd (main w)) = Some (transform_data (sort_index rs))" by simp
  moreover have "sorted_wrt (<) (map timestamp (transform_data (sort_index rs)))"
    using sorted_sort_index by (rule strictly_increasing_transform_data)
  ultimately show "\<exists>t. features_demand (snd (main w)) = Some t \<and> sorted_wrt (<) (map timestamp t)"
    by blast
qed

lemma sorted_scenario: "sorted (map timestamp scenario)"
  unfolding timestamps_scenario
  by (simp add: sorted_map sorted_wrt_iff_nth_less del: upt_rec_numeral)

lemma sort_index_rev_scenario: "sort_index (rev scenario) = scenario"
proof -
  let ?s = "sort_key timestamp (rev scenario)"
  from distinct_scenario have inj: "inj_on timestamp (set scenario)" and d: "distinct scenario"
    by (simp_all add: distinct_map)
  have st: "set ?s = set scenario" by simp
  have "distinct ?s" using d by (simp add: distinct_sort)
  with inj st have dm: "distinct (map timestamp ?s)" by (simp add: distinct_map)
  have "map timestamp ?s = map timestamp scenario"
  proof (rule sorted_distinct_set_unique)
    show "sorted (map timestamp ?s)" by simp
    show "distinct (map timestamp ?s)" by (rule dm)
    show "sorted (map timestamp scenario)" by (rule sorted_scenario)
    show "distinct (map timestamp scenario)" by (rule distinct_scenario)
    show "set (map timestamp ?s) = set (map timestamp scenario)" using st by simp
  qed
  moreover have "inj_on timestamp (set ?s \<union> set scenario)" using inj st by simp
  ultimately have "?s = scenario" by (simp add: inj_on_map_eq_map)
  then show ?thesis by (simp add: sort_index_def)
qed

lemma main_unsorted_world:
  "main unsorted_world =
     (Saved, unsorted_world\<lparr>features_demand := Some (transform_data scenario)\<rparr>)"
proof -
  have "transform_data scenario \<noteq> []"
    using length_transform_data_scenario by auto
  then show ?thesis
    by (simp add: main_def unsorted_world_def get_sql_engine_def load_raw_data_def
        save_features_data_def sort_index_rev_scenario)
qed

text \<open>C8 on the scenario stored newest first, and on six rows in descending order.\<close>

theorem feature_table_strictly_increasing_witness:
  "fst (main unsorted_world) = Saved \<and>
   \<not> sorted (map timestamp (rev leading_gap)) \<and>
   sorted_wrt (<) (map timestamp (transform_data (sort_index (rev leading_gap)))) \<and>
   sorted (map timestamp scenario) \<and>
   sorted_wrt (<) (map timestamp (transform_data scenario)) \<and>
   (\<exists>t. features_demand (snd (main unsorted_world)) = Some t \<and>
        sorted_wrt (<) (map timestamp t))"
proof -
  have s: "fst (main unsorted_world) = Saved" by (simp add: main_unsorted_world)
  have u: "\<not> sorted (map timestamp (rev leading_gap))" by (simp add: leading_gap_def)
  note ss = sorted_scenario
  note T = feature_table_strictly_increasing [of scenario "rev leading_gap" unsorted_world]
  from T s ss u show ?thesis by blast
qed

lemma sort_index_leading_gap: "sort_index leading_gap = leading_gap"
  by (simp add: sort_index_def leading_gap_def)

lemma script_ends_normally: "script_ending w = Ends_Normally"
  by (simp add: script_ending_def Let_def split: option.split prod.split bool.split)

text \<open>
  C3, as stated, fails on a raw table of six rows: no row survives the trimming, yet the
  script ends normally; no \<^verbatim>\<open>EmptyResultError\<close>, nor any other exception, reaches the caller.
\<close>

theorem empty_result_counterexample:
  "load_raw_data Engine short_series_world = Some leading_gap \<and>
   transform_data leading_gap = [] \<and>
   script_ending short_series_world = Ends_Normally \<and>
   script_ending short_series_world \<noteq> Raises ''EmptyResultError''"
proof -
  have "length (drop_duplicated leading_gap) \<le> 168"
    by (simp add: drop_duplicated_def leading_gap_def)
  then have "transform_data leading_gap = []" by (rule transform_data_short)
  then show ?thesis
    by (simp add: load_raw_data_def short_series_world_def sort_index_leading_gap
        script_ends_normally)
qed

text \<open>
  C3, amended: when no row survives the trimming, in particular when the deduplicated
  series has at most 168 rows, the script raises nothing: the main block takes its
  empty-result branch, which prints the condition, and the script ends normally. It writes
  nothing: the environment, and with it the stored feature table, is as before.
\<close>

theorem empty_result_no_write:
  "(get_sql_engine w = Some e \<and> load_raw_data e w = Some raw_df \<and> transform_data raw_df = [] \<longrightarrow>
      main w = (Transformation_Failed_Or_Empty, w) \<and>
      script_ending w = Ends_Normally \<and>
      features_demand (snd (main w)) = features_demand w) \<and>
   (length (drop_duplicated df) \<le> 168 \<longrightarrow> transform_data df = [])"
proof (intro conjI impI)
  assume h: "get_sql_engine w = Some e \<and> load_raw_data e w = Some raw_df \<and>
    transform_data raw_df = []"
  then show m: "main w = (Transformation_Failed_Or_Empty, w)"
    by (simp add: main_def)
  then show "features_demand (snd (main w)) = features_demand w"
    by simp
  from h show "script_ending w = Ends_Normally"
    by (simp add: script_ending_def)
next
  assume "length (drop_duplicated df) \<le> 168"
  then show "transform_data df = []" by (rule transform_data_short)
qed

text \<open>C3 on a raw table of six rows: the earlier feature table is still there.\<close>

theorem empty_result_no_write_witness:
  "get_sql_engine short_series_world = Some Engine \<and>
   load_raw_data Engine short_series_world = Some leading_gap \<and>
   length (drop_duplicated leading_gap) \<le> 168 \<and>
   transform_data leading_gap = [] \<and>
   main short_series_world = (Transformation_Failed_Or_Empty, short_series_world) \<and>
   script_ending short_series_world = Ends_Normally \<and>
   features_demand (snd (main short_series_world)) = Some (transform_data scenario)"
proof -
  have e: "get_sql_engine short_series_world = Some Engine"
    by (simp add: get_sql_engine_def short_series_world_def)
  have l: "load_raw_data Engine short_series_world = Some leading_gap"
    by (simp add: load_raw_data_def short_series_world_def sort_index_leading_gap)
  have n: "length (drop_duplicated leading_gap) \<le> 168"
    by (simp add: drop_duplicated_def leading_gap_def)
  from empty_result_no_write [of short_series_world Engine leading_gap leading_gap] n
  have t: "transform_data leading_gap = []" by blast
  from empty_result_no_write [of short_series_world Engine leading_gap leading_gap] e l t
  have m: "main short_series_world = (Transformation_Failed_Or_Empty, short_series_world) \<and>
           script_ending short_series_world = Ends_Normally"
    by blast
  then have "features_demand (snd (main short_series_world)) = Some (transform_data scenario)"
    by (simp add: short_series_world_def)
  with e l n t m show ?thesis by blast
qed

text \<open>
  C4, as stated, fails for an empty raw table: the loader returns an empty frame rather
  than failing, and the run ends in the empty-result branch, not in the loading failure.
\<close>

theorem empty_store_counterexample:
  "load_raw_data Engine empty_store_world = Some [] \<and>
   fst (main empty_store_world) = Transformation_Failed_Or_Empty"
proof -
  have "transform_data [] = []"
    by (simp add: transform_data_def clean_def drop_duplicated_def isnull_sum_def
        add_features_def dropna_def)
  then show ?thesis
    by (simp add: main_def get_sql_engine_def load_raw_data_def empty_store_world_def
        sort_index_def)
qed

text \<open>
  C4, amended: when the server does not answer or the raw table does not exist, the loader
  fails and the run ends reporting that loading failed, with nothing written. When the raw
  table exists and has no rows, the loader returns an empty frame and the run ends in the
  empty-result branch, again with nothing written.
\<close>

theorem unreachable_store_no_write:
  "(get_sql_engine w = Some e \<and> (\<not> db_up w \<or> raw_demand w = None) \<longrightarrow>
      load_raw_data e w = None \<and> main w = (Data_Loading_Failed, w)) \<and>
   (get_sql_engine w = Some e \<and> db_up w \<and> raw_demand w = Some [] \<longrightarrow>
      load_raw_data e w = Some [] \<and> main w = (Transformation_Failed_Or_Empty, w))"
proof (intro conjI impI)
  assume h: "get_sql_engine w = Some e \<and> (\<not> db_up w \<or> raw_demand w = None)"
  then show l: "load_raw_data e w = None"
    by (auto simp: load_raw_data_def)
  with h show "main w = (Data_Loading_Failed, w)"
    by (simp add: main_def)
next
  assume h: "get_sql_engine w = Some e \<and> db_up w \<and> raw_demand w = Some []"
  then show l: "load_raw_data e w = Some []"
    by (simp add: load_raw_data_def sort_index_def)
  have "transform_data [] = []"
    by (simp add: transform_data_def clean_def drop_duplicated_def isnull_sum_def
        add_features_def dropna_def)
  with h l show "main w = (Transformation_Failed_Or_Empty, w)"
    by (simp add: main_def)
qed

text \<open>C4 on a server that does not answer and on an empty raw table.\<close>

theorem unreachable_store_no_write_witness:
  "load_raw_data Engine server_down_world = None \<and>
   main server_down_world = (Data_Loading_Failed, server_down_world) \<and>
   load_raw_data Engine empty_store_world = Some [] \<and>
   main empty_store_world = (Transformation_Failed_Or_Empty, empty_store_world)"
proof -
  have a: "get_sql_engine server_down_world = Some Engine \<and>
           (\<not> db_up server_down_world \<or> raw_demand server_down_world = None)"
    by (simp add: get_sql_engine_def server_down_world_def)
  have b: "get_sql_engine empty_store_world = Some Engine \<and> db_up empty_store_world \<and>
           raw_demand empty_store_world = Some []"
    by (simp add: get_sql_engine_def empty_store_world_def)
  from unreachable_store_no_write [of server_down_world Engine] a
  have 1: "load_raw_data Engine server_down_world = None \<and>
           main server_down_world = (Data_Loading_Failed, server_down_world)" by blast
  from unreachable_store_no_write [of empty_store_world Engine] b
  have 2: "load_raw_data Engine empty_store_world = Some [] \<and>
           main empty_store_world = (Transformation_Failed_Or_Empty, empty_store_world)" by blast
  from 1 2 show ?thesis by blast
qed

text \<open>
  C9: saving replaces the stored table. Whatever table \<open>prior\<close> was stored, after a save
  that reaches the database the stored table is exactly the new frame.
\<close>

theorem save_replaces_table:
  "db_up w \<longrightarrow>
     save_features_data new e (w\<lparr>features_demand := prior\<rparr>) =
       (True, w\<lparr>features_demand := Some new\<rparr>) \<and>
     features_demand (snd (save_features_data new e (w\<lparr>features_demand := prior\<rparr>))) = Some new"
  by (simp add: save_features_data_def)

text \<open>C9: a table of 6 rows saved over one of 32 rows.\<close>

theorem save_replaces_table_witness:
  "features_demand
     (snd (save_features_data (add_features leading_gap) Engine
        (short_series_world\<lparr>features_demand := Some (transform_data scenario)\<rparr>)))
     = Some (add_features leading_gap) \<and>
   length (transform_data scenario) \<noteq> length (add_features leading_gap)"
proof -
  have u: "db_up short_series_world" by (simp add: short_series_world_def)
  have "length (transform_data scenario) \<noteq> length (add_features leading_gap)"
    by (simp add: length_transform_data_scenario leading_gap_def)
  with save_replaces_table [of short_series_world "add_features leading_gap" Engine
      "Some (transform_data scenario)"] u
  show ?thesis by blast
qed

end
